theory Spec2Isabelle
  imports Main "HOL-Library.Word"
begin

unbundle bit_operations_syntax

section \<open>The i2c package: data model\<close>

text \<open>
  The package drives a Linux i2c bus through an open \<^verbatim>\<open>*os.File\<close> and the
  \<^verbatim>\<open>ioctl\<close> system call. Neither is code of the package, so both are a parameter of
  the model: a \<open>transport\<close> gives, for a state \<open>'d\<close> of the operating system and the
  device behind it, what \<^verbatim>\<open>rc.Fd()\<close>, \<^verbatim>\<open>rc.Write\<close>, \<^verbatim>\<open>rc.Read\<close>,
  \<^verbatim>\<open>rc.Close\<close> and \<^verbatim>\<open>syscall.Syscall6(SYS_IOCTL, ...)\<close> answer and the state they
  leave. Every theorem below that is not about one named fake device holds for every
  transport.

  Go's \<^verbatim>\<open>byte\<close>/\<^verbatim>\<open>uint8\<close> is an 8-bit word, \<^verbatim>\<open>uint16\<close> and \<^verbatim>\<open>int16\<close>
  are 16-bit words (\<open>uint\<close> reads the first, \<open>sint\<close> the second), an \<^verbatim>\<open>error\<close> is
  an \<open>error option\<close> with \<open>None\<close> for \<^verbatim>\<open>nil\<close>, and a result \<^verbatim>\<open>(int, error)\<close> is a
  pair.
\<close>

type_synonym byte = "8 word"
type_synonym uint8 = "8 word"
type_synonym uint16 = "16 word"
type_synonym int16 = "16 word"

datatype error = Errno nat | PathError string nat | EOF

text \<open>
  What the package asks of the mutex, the system and the file, in the order it asks.
  The list of these events is the observation the claims about "what is sent" and
  "what is not attempted" are stated on.
\<close>

datatype event =
    EvLock
  | EvUnlock
  | EvIoctl nat nat nat
  | EvWrite "byte list"
  | EvRead nat
  | EvClose

record 'd transport =
  file_Fd :: "'d \<Rightarrow> nat"
  sys_ioctl :: "'d \<Rightarrow> nat \<Rightarrow> nat \<Rightarrow> nat \<Rightarrow> nat \<times> 'd"
  file_Write :: "'d \<Rightarrow> byte list \<Rightarrow> (int \<times> error option) \<times> 'd"
  file_Read :: "'d \<Rightarrow> nat \<Rightarrow> (byte list \<times> error option) \<times> 'd"
  file_Close :: "'d \<Rightarrow> error option \<times> 'd"

text \<open>
  \<^verbatim>\<open>type I2C struct { rc *os.File; mtx *sync.Mutex }\<close>: \<open>rc\<close> is the state behind the
  file handle; the mutex is observed through its \<open>EvLock\<close> and \<open>EvUnlock\<close> events in
  \<open>trace\<close>, which lists the events issued so far, oldest first.
\<close>

record 'd I2C =
  rc :: 'd
  trace :: "event list"

definition I2C_SLAVE :: nat where
  "I2C_SLAVE = 0x0703"

section \<open>Go's integer conversions and operators\<close>

text \<open>
  A Go conversion between integer types extends the value (by its sign when the source
  type is signed, by zeros when it is unsigned) and truncates it to the target width:
  \<open>scast\<close> from a signed type, \<open>ucast\<close> from an unsigned one. \<^verbatim>\<open>>>\<close> is arithmetic
  on a signed operand and logical on an unsigned one; \<^verbatim>\<open>+\<close>, \<^verbatim>\<open>*\<close> and \<^verbatim>\<open><<\<close>
  wrap. \<^verbatim>\<open><<\<close>, \<^verbatim>\<open>>>\<close>, \<^verbatim>\<open>&\<close> and \<^verbatim>\<open>*\<close> bind tighter than \<^verbatim>\<open>+\<close>.
\<close>

definition uint16_of_byte :: "byte \<Rightarrow> uint16" where
  "uint16_of_byte b = ucast b"

definition int16_of_byte :: "byte \<Rightarrow> int16" where
  "int16_of_byte b = ucast b"

definition uint16_of_int16 :: "int16 \<Rightarrow> uint16" where
  "uint16_of_int16 v = scast v"

definition int16_of_uint16 :: "uint16 \<Rightarrow> int16" where
  "int16_of_uint16 v = ucast v"

definition byte_of_uint16 :: "uint16 \<Rightarrow> byte" where
  "byte_of_uint16 v = ucast v"

definition byte_of_int16 :: "int16 \<Rightarrow> byte" where
  "byte_of_int16 v = scast v"

definition shr_u16 :: "uint16 \<Rightarrow> nat \<Rightarrow> uint16" where
  "shr_u16 v n = drop_bit n v"

definition shr_s16 :: "int16 \<Rightarrow> nat \<Rightarrow> int16" where
  "shr_s16 v n = signed_drop_bit n v"

definition shl16 :: "16 word \<Rightarrow> nat \<Rightarrow> 16 word" where
  "shl16 v n = push_bit n v"

section \<open>The mutex, the system call and the file\<close>

definition emit :: "event \<Rightarrow> 'd I2C \<Rightarrow> 'd I2C" where
  "emit ev this = this\<lparr>trace := trace this @ [ev]\<rparr>"

definition mtx_Lock :: "'d I2C \<Rightarrow> 'd I2C" where
  "mtx_Lock this = emit EvLock this"

definition mtx_Unlock :: "'d I2C \<Rightarrow> 'd I2C" where
  "mtx_Unlock this = emit EvUnlock this"

text \<open>
  \<^verbatim>\<open>this.mtx.Lock(); defer this.mtx.Unlock(); return body\<close>: the deferred unlock runs
  after the body on every path.
\<close>

definition locked :: "('d I2C \<Rightarrow> 'a \<times> 'd I2C) \<Rightarrow> 'd I2C \<Rightarrow> 'a \<times> 'd I2C" where
  "locked body this = (case body (mtx_Lock this) of (r, this') \<Rightarrow> (r, mtx_Unlock this'))"

text \<open>
  \<^verbatim>\<open>func ioctl(fd, cmd, arg uintptr) error\<close>: the system call's \<open>errno\<close>, \<^verbatim>\<open>nil\<close> when
  it is 0.
\<close>

definition ioctl :: "'d transport \<Rightarrow> nat \<Rightarrow> nat \<Rightarrow> nat \<Rightarrow> 'd I2C \<Rightarrow> error option \<times> 'd I2C" where
  "ioctl T fd cmd arg this =
     (case sys_ioctl T (rc this) fd cmd arg of
        (err, d') \<Rightarrow>
          let this' = (emit (EvIoctl fd cmd arg) this)\<lparr>rc := d'\<rparr>
          in if err \<noteq> 0 then (Some (Errno err), this') else (None, this'))"

text \<open>\<^verbatim>\<open>this.rc.Write(buf)\<close>.\<close>

definition rc_Write :: "'d transport \<Rightarrow> byte list \<Rightarrow> 'd I2C \<Rightarrow> (int \<times> error option) \<times> 'd I2C" where
  "rc_Write T buf this =
     (case file_Write T (rc this) buf of
        (r, d') \<Rightarrow> (r, (emit (EvWrite buf) this)\<lparr>rc := d'\<rparr>))"

text \<open>
  \<^verbatim>\<open>this.rc.Read(p)\<close> fills \<open>p\<close> in place from its start with the bytes the transport
  delivers, at most \<open>length p\<close> of them, and returns their number: the result is the
  buffer after the call, the count and the error.
\<close>

definition rc_Read :: "'d transport \<Rightarrow> byte list \<Rightarrow> 'd I2C \<Rightarrow> (byte list \<times> int \<times> error option) \<times> 'd I2C" where
  "rc_Read T p this =
     (case file_Read T (rc this) (length p) of
        ((bs, err), d') \<Rightarrow>
          let got = take (length p) bs
          in ((got @ drop (length got) p, int (length got), err),
              (emit (EvRead (length p)) this)\<lparr>rc := d'\<rparr>))"

text \<open>\<^verbatim>\<open>this.rc.Close()\<close>.\<close>

definition rc_Close :: "'d transport \<Rightarrow> 'd I2C \<Rightarrow> error option \<times> 'd I2C" where
  "rc_Close T this =
     (case file_Close T (rc this) of
        (err, d') \<Rightarrow> (err, (emit EvClose this)\<lparr>rc := d'\<rparr>))"

section \<open>Bus connection\<close>

definition setAddress :: "'d transport \<Rightarrow> uint8 \<Rightarrow> 'd I2C \<Rightarrow> error option \<times> 'd I2C" where
  "setAddress T addr this = ioctl T (file_Fd T (rc this)) I2C_SLAVE (unat addr) this"

text \<open>
  The source returns \<^verbatim>\<open>nil, e\<close> when the address cannot be set; the count of a
  failed call is modelled as 0, the zero value of \<^verbatim>\<open>int\<close>.
\<close>

definition writeNoSync :: "'d transport \<Rightarrow> uint8 \<Rightarrow> byte list \<Rightarrow> 'd I2C \<Rightarrow> (int \<times> error option) \<times> 'd I2C" where
  "writeNoSync T addr buf this =
     (case setAddress T addr this of
        (Some e, this') \<Rightarrow> ((0, Some e), this')
      | (None, this') \<Rightarrow> rc_Write T buf this')"

definition Write :: "'d transport \<Rightarrow> uint8 \<Rightarrow> byte list \<Rightarrow> 'd I2C \<Rightarrow> (int \<times> error option) \<times> 'd I2C" where
  "Write T addr buf this = locked (writeNoSync T addr buf) this"

definition writeByteNoSync :: "'d transport \<Rightarrow> uint8 \<Rightarrow> byte \<Rightarrow> 'd I2C \<Rightarrow> (int \<times> error option) \<times> 'd I2C" where
  "writeByteNoSync T addr b this = writeNoSync T addr ([0 :: byte][0 := b]) this"

definition WriteByte :: "'d transport \<Rightarrow> uint8 \<Rightarrow> byte \<Rightarrow> 'd I2C \<Rightarrow> (int \<times> error option) \<times> 'd I2C" where
  "WriteByte T addr b this = locked (writeByteNoSync T addr b) this"

text \<open>The buffer of a read that did not get as far as the file is returned as it was.\<close>

definition readNoSync :: "'d transport \<Rightarrow> uint8 \<Rightarrow> byte list \<Rightarrow> 'd I2C \<Rightarrow> (byte list \<times> int \<times> error option) \<times> 'd I2C" where
  "readNoSync T addr p this =
     (case setAddress T addr this of
        (Some e, this') \<Rightarrow> ((p, 0, Some e), this')
      | (None, this') \<Rightarrow> rc_Read T p this')"

definition Read :: "'d transport \<Rightarrow> uint8 \<Rightarrow> byte list \<Rightarrow> 'd I2C \<Rightarrow> (byte list \<times> int \<times> error option) \<times> 'd I2C" where
  "Read T addr p this = locked (readNoSync T addr p) this"

definition Close :: "'d transport \<Rightarrow> 'd I2C \<Rightarrow> error option \<times> 'd I2C" where
  "Close T this = locked (rc_Close T) this"

section \<open>Register access (SMBus style)\<close>

text \<open>
  \<^verbatim>\<open>make([]byte, n)\<close> is \<open>n\<close> zero bytes. The diagnostic \<^verbatim>\<open>log.Debug\<close> calls of
  the source touch neither the file nor the mutex and are left out.
\<close>

definition make_bytes :: "nat \<Rightarrow> byte list" where
  "make_bytes n = replicate n 0"

definition ReadRegU8 :: "'d transport \<Rightarrow> uint8 \<Rightarrow> byte \<Rightarrow> 'd I2C \<Rightarrow> (byte \<times> error option) \<times> 'd I2C" where
  "ReadRegU8 T addr reg this =
     locked (\<lambda>this.
       case writeNoSync T addr [reg] this of
         ((_, Some err), this1) \<Rightarrow> ((0, Some err), this1)
       | ((_, None), this1) \<Rightarrow>
           (case readNoSync T addr (make_bytes 1) this1 of
              ((_, _, Some err), this2) \<Rightarrow> ((0, Some err), this2)
            | ((buf, _, None), this2) \<Rightarrow> ((buf ! 0, None), this2))) this"

definition WriteRegU8 :: "'d transport \<Rightarrow> uint8 \<Rightarrow> byte \<Rightarrow> byte \<Rightarrow> 'd I2C \<Rightarrow> error option \<times> 'd I2C" where
  "WriteRegU8 T addr reg val this =
     locked (\<lambda>this.
       case writeNoSync T addr [reg, val] this of
         ((_, Some err), this1) \<Rightarrow> (Some err, this1)
       | ((_, None), this1) \<Rightarrow> (None, this1)) this"

definition ReadRegU16BE :: "'d transport \<Rightarrow> uint8 \<Rightarrow> byte \<Rightarrow> 'd I2C \<Rightarrow> (uint16 \<times> error option) \<times> 'd I2C" where
  "ReadRegU16BE T addr reg this =
     locked (\<lambda>this.
       case writeNoSync T addr [reg] this of
         ((_, Some err), this1) \<Rightarrow> ((0, Some err), this1)
       | ((_, None), this1) \<Rightarrow>
           (case readNoSync T addr (make_bytes 2) this1 of
              ((_, _, Some err), this2) \<Rightarrow> ((0, Some err), this2)
            | ((buf, _, None), this2) \<Rightarrow>
                ((shl16 (uint16_of_byte (buf ! 0)) 8 + uint16_of_byte (buf ! 1), None), this2))) this"

definition ReadRegU16LE :: "'d transport \<Rightarrow> uint8 \<Rightarrow> byte \<Rightarrow> 'd I2C \<Rightarrow> (uint16 \<times> error option) \<times> 'd I2C" where
  "ReadRegU16LE T addr reg this =
     (case ReadRegU16BE T addr reg this of
        ((_, Some err), this1) \<Rightarrow> ((0, Some err), this1)
      | ((w, None), this1) \<Rightarrow> ((shl16 (w AND 0xFF) 8 + shr_u16 w 8, None), this1))"

definition ReadRegS16BE :: "'d transport \<Rightarrow> uint8 \<Rightarrow> byte \<Rightarrow> 'd I2C \<Rightarrow> (int16 \<times> error option) \<times> 'd I2C" where
  "ReadRegS16BE T addr reg this =
     locked (\<lambda>this.
       case writeNoSync T addr [reg] this of
         ((_, Some err), this1) \<Rightarrow> ((0, Some err), this1)
       | ((_, None), this1) \<Rightarrow>
           (case readNoSync T addr (make_bytes 2) this1 of
              ((_, _, Some err), this2) \<Rightarrow> ((0, Some err), this2)
            | ((buf, _, None), this2) \<Rightarrow>
                ((shl16 (int16_of_byte (buf ! 0)) 8 + int16_of_byte (buf ! 1), None), this2))) this"

definition ReadRegS16LE :: "'d transport \<Rightarrow> uint8 \<Rightarrow> byte \<Rightarrow> 'd I2C \<Rightarrow> (int16 \<times> error option) \<times> 'd I2C" where
  "ReadRegS16LE T addr reg this =
     (case ReadRegS16BE T addr reg this of
        ((_, Some err), this1) \<Rightarrow> ((0, Some err), this1)
      | ((w, None), this1) \<Rightarrow> ((shl16 (w AND 0xFF) 8 + shr_s16 w 8, None), this1))"

definition WriteRegU16BE :: "'d transport \<Rightarrow> uint8 \<Rightarrow> byte \<Rightarrow> uint16 \<Rightarrow> 'd I2C \<Rightarrow> error option \<times> 'd I2C" where
  "WriteRegU16BE T addr reg val this =
     locked (\<lambda>this.
       case writeNoSync T addr
              [reg, byte_of_uint16 (shr_u16 (val AND 0xFF00) 8), byte_of_uint16 (val AND 0xFF)] this of
         ((_, Some err), this1) \<Rightarrow> (Some err, this1)
       | ((_, None), this1) \<Rightarrow> (None, this1)) this"

definition WriteRegU16LE :: "'d transport \<Rightarrow> uint8 \<Rightarrow> byte \<Rightarrow> uint16 \<Rightarrow> 'd I2C \<Rightarrow> error option \<times> 'd I2C" where
  "WriteRegU16LE T addr reg val this =
     (let w = shr_u16 (val * 0xFF00) 8 + shl16 val 8
      in WriteRegU16BE T addr reg w this)"

definition WriteRegS16BE :: "'d transport \<Rightarrow> uint8 \<Rightarrow> byte \<Rightarrow> int16 \<Rightarrow> 'd I2C \<Rightarrow> error option \<times> 'd I2C" where
  "WriteRegS16BE T addr reg val this =
     locked (\<lambda>this.
       case writeNoSync T addr
              [reg, byte_of_uint16 (shr_u16 (uint16_of_int16 val AND 0xFF00) 8),
               byte_of_int16 (val AND 0xFF)] this of
         ((_, Some err), this1) \<Rightarrow> (Some err, this1)
       | ((_, None), this1) \<Rightarrow> (None, this1)) this"

definition WriteRegS16LE :: "'d transport \<Rightarrow> uint8 \<Rightarrow> byte \<Rightarrow> int16 \<Rightarrow> 'd I2C \<Rightarrow> error option \<times> 'd I2C" where
  "WriteRegS16LE T addr reg val this =
     (let w = int16_of_uint16 (shr_u16 (uint16_of_int16 val * 0xFF00) 8) + shl16 val 8
      in WriteRegS16BE T addr reg w this)"

section \<open>Observations and fake transports\<close>

text \<open>The events a call added to the trace of the connection it was given.\<close>

definition issued :: "'d I2C \<Rightarrow> 'a \<times> 'd I2C \<Rightarrow> event list" where
  "issued this r = drop (length (trace this)) (trace (snd r))"

definition conn :: "'d \<Rightarrow> 'd I2C" where
  "conn d = \<lparr>rc = d, trace = []\<rparr>"

text \<open>
  A scripted transport for tests: its state holds the answers still to be given to the
  next \<^verbatim>\<open>ioctl\<close>, \<^verbatim>\<open>Write\<close> and \<^verbatim>\<open>Read\<close>; when a script is used up the call
  succeeds (a write takes the whole buffer, a read fills the buffer with zero bytes).
\<close>

record script =
  ioctl_rs :: "nat list"
  write_rs :: "(int \<times> error option) list"
  read_rs :: "(byte list \<times> error option) list"

definition scripted :: "script transport" where
  "scripted =
     \<lparr>file_Fd = (\<lambda>d. 3),
      sys_ioctl = (\<lambda>d fd cmd arg.
        case ioctl_rs d of [] \<Rightarrow> (0, d) | r # rs \<Rightarrow> (r, d\<lparr>ioctl_rs := rs\<rparr>)),
      file_Write = (\<lambda>d buf.
        case write_rs d of [] \<Rightarrow> ((int (length buf), None), d) | r # rs \<Rightarrow> (r, d\<lparr>write_rs := rs\<rparr>)),
      file_Read = (\<lambda>d n.
        case read_rs d of [] \<Rightarrow> ((replicate n 0, None), d) | r # rs \<Rightarrow> (r, d\<lparr>read_rs := rs\<rparr>)),
      file_Close = (\<lambda>d. (None, d))\<rparr>"

text \<open>
  A transport that behaves as a Unix file does around \<^verbatim>\<open>Close\<close>: the state says
  whether the file is closed; an open file has descriptor 3 and accepts everything, a
  closed one reports the invalid descriptor \<open>2^64 - 1\<close> and every call on it fails with
  \<open>EBADF\<close> (9).
\<close>

definition closable :: "bool transport" where
  "closable =
     \<lparr>file_Fd = (\<lambda>closed. if closed then 2 ^ 64 - 1 else 3),
      sys_ioctl = (\<lambda>closed fd cmd arg. (if fd = 3 \<and> \<not> closed then 0 else 9, closed)),
      file_Write = (\<lambda>closed buf.
        if closed then ((0, Some (PathError ''write'' 9)), closed)
        else ((int (length buf), None), closed)),
      file_Read = (\<lambda>closed n.
        if closed then (([], Some (PathError ''read'' 9)), closed)
        else ((replicate n 0, None), closed)),
      file_Close = (\<lambda>closed.
        if closed then (Some (PathError ''close'' 9), closed) else (None, True))\<rparr>"

text \<open>
  Modelled from the spec: the fake device of the round-trip property, which is not in
  the repository. It "stores the last 2 written bytes": a write of a register
  reference followed by data keeps the last two data bytes, a write of the reference
  alone keeps what is stored, and a read delivers the stored bytes from the first.
\<close>

definition store_last2 :: "byte list transport" where
  "store_last2 =
     \<lparr>file_Fd = (\<lambda>d. 3),
      sys_ioctl = (\<lambda>d fd cmd arg. (0, d)),
      file_Write = (\<lambda>d buf.
        ((int (length buf), None),
         if length buf > 1 then drop (length (tl buf) - 2) (tl buf) else d)),
      file_Read = (\<lambda>d n. ((take n d, None), d)),
      file_Close = (\<lambda>d. (None, d))\<rparr>"

section \<open>Calls of the public operations\<close>

text \<open>
  A call of one of the public methods of \<^verbatim>\<open>*I2C\<close> with its arguments, and what it
  does to a connection: \<open>perform\<close> runs the method and keeps its error and the
  connection it leaves (the values read are dropped). \<open>target\<close> is the peripheral
  address a call is given; \<^verbatim>\<open>Close\<close> has none.
\<close>

datatype call =
    Call_Write uint8 "byte list"
  | Call_WriteByte uint8 byte
  | Call_Read uint8 "byte list"
  | Call_Close
  | Call_ReadRegU8 uint8 byte
  | Call_WriteRegU8 uint8 byte byte
  | Call_ReadRegU16BE uint8 byte
  | Call_ReadRegU16LE uint8 byte
  | Call_ReadRegS16BE uint8 byte
  | Call_ReadRegS16LE uint8 byte
  | Call_WriteRegU16BE uint8 byte uint16
  | Call_WriteRegU16LE uint8 byte uint16
  | Call_WriteRegS16BE uint8 byte int16
  | Call_WriteRegS16LE uint8 byte int16

fun perform :: "'d transport \<Rightarrow> call \<Rightarrow> 'd I2C \<Rightarrow> error option \<times> 'd I2C" where
  "perform T (Call_Write addr buf) this =
     (case Write T addr buf this of ((n, err), this') \<Rightarrow> (err, this'))"
| "perform T (Call_WriteByte addr b) this =
     (case WriteByte T addr b this of ((n, err), this') \<Rightarrow> (err, this'))"
| "perform T (Call_Read addr p) this =
     (case Read T addr p this of ((p', n, err), this') \<Rightarrow> (err, this'))"
| "perform T Call_Close this = Close T this"
| "perform T (Call_ReadRegU8 addr reg) this =
     (case ReadRegU8 T addr reg this of ((v, err), this') \<Rightarrow> (err, this'))"
| "perform T (Call_WriteRegU8 addr reg val) this = WriteRegU8 T addr reg val this"
| "perform T (Call_ReadRegU16BE addr reg) this =
     (case ReadRegU16BE T addr reg this of ((v, err), this') \<Rightarrow> (err, this'))"
| "perform T (Call_ReadRegU16LE addr reg) this =
     (case ReadRegU16LE T addr reg this of ((v, err), this') \<Rightarrow> (err, this'))"
| "perform T (Call_ReadRegS16BE addr reg) this =
     (case ReadRegS16BE T addr reg this of ((v, err), this') \<Rightarrow> (err, this'))"
| "perform T (Call_ReadRegS16LE addr reg) this =
     (case ReadRegS16LE T addr reg this of ((v, err), this') \<Rightarrow> (err, this'))"
| "perform T (Call_WriteRegU16BE addr reg val) this = WriteRegU16BE T addr reg val this"
| "perform T (Call_WriteRegU16LE addr reg val) this = WriteRegU16LE T addr reg val this"
| "perform T (Call_WriteRegS16BE addr reg val) this = WriteRegS16BE T addr reg val this"
| "perform T (Call_WriteRegS16LE addr reg val) this = WriteRegS16LE T addr reg val this"

fun target :: "call \<Rightarrow> uint8 option" where
  "target (Call_Write addr buf) = Some addr"
| "target (Call_WriteByte addr b) = Some addr"
| "target (Call_Read addr p) = Some addr"
| "target Call_Close = None"
| "target (Call_ReadRegU8 addr reg) = Some addr"
| "target (Call_WriteRegU8 addr reg val) = Some addr"
| "target (Call_ReadRegU16BE addr reg) = Some addr"
| "target (Call_ReadRegU16LE addr reg) = Some addr"
| "target (Call_ReadRegS16BE addr reg) = Some addr"
| "target (Call_ReadRegS16LE addr reg) = Some addr"
| "target (Call_WriteRegU16BE addr reg val) = Some addr"
| "target (Call_WriteRegU16LE addr reg val) = Some addr"
| "target (Call_WriteRegS16BE addr reg val) = Some addr"
| "target (Call_WriteRegS16LE addr reg val) = Some addr"

text \<open>The register reads: the address and the register reference they are given.\<close>

fun reg_read :: "call \<Rightarrow> (uint8 \<times> byte) option" where
  "reg_read (Call_ReadRegU8 addr reg) = Some (addr, reg)"
| "reg_read (Call_ReadRegU16BE addr reg) = Some (addr, reg)"
| "reg_read (Call_ReadRegU16LE addr reg) = Some (addr, reg)"
| "reg_read (Call_ReadRegS16BE addr reg) = Some (addr, reg)"
| "reg_read (Call_ReadRegS16LE addr reg) = Some (addr, reg)"
| "reg_read c = None"

text \<open>Calls performed one after the other on the connection the one before left.\<close>

fun perform_all :: "'d transport \<Rightarrow> call list \<Rightarrow> 'd I2C \<Rightarrow> 'd I2C" where
  "perform_all T [] this = this"
| "perform_all T (c # cs) this = perform_all T cs (snd (perform T c this))"

section \<open>Threads sharing a connection\<close>

text \<open>
  A run of several threads is the list of their events in the order they happen, each
  with the thread that issued it. \<^verbatim>\<open>sync.Mutex\<close> decides which orders can happen:
  \<^verbatim>\<open>Lock\<close> returns only while the mutex is free and takes it, \<^verbatim>\<open>Unlock\<close> frees a
  held mutex (on a free one the Go runtime stops the program), and Go does not tie a
  mutex to the thread that locked it. \<open>mutex_ok held run\<close> says that \<open>run\<close> can
  happen from a mutex that is held or free as \<open>held\<close> says.
\<close>

fun mutex_ok :: "bool \<Rightarrow> ('t \<times> event) list \<Rightarrow> bool" where
  "mutex_ok held [] = True"
| "mutex_ok held ((t, EvLock) # run) = (\<not> held \<and> mutex_ok True run)"
| "mutex_ok held ((t, EvUnlock) # run) = (held \<and> mutex_ok False run)"
| "mutex_ok held ((t, ev) # run) = mutex_ok held run"

text \<open>The events of thread \<open>t\<close>.\<close>

definition by_thread :: "'t \<Rightarrow> event list \<Rightarrow> ('t \<times> event) list" where
  "by_thread t evs = map (Pair t) evs"

definition lock_free :: "event list \<Rightarrow> bool" where
  "lock_free evs = (EvLock \<notin> set evs \<and> EvUnlock \<notin> set evs)"

section \<open>Unfolding rules\<close>

lemmas conv_defs = uint16_of_byte_def int16_of_byte_def uint16_of_int16_def int16_of_uint16_def
  byte_of_uint16_def byte_of_int16_def shr_u16_def shr_s16_def shl16_def

lemmas io_defs = locked_def mtx_Lock_def mtx_Unlock_def emit_def ioctl_def rc_Write_def
  rc_Read_def rc_Close_def setAddress_def writeNoSync_def readNoSync_def make_bytes_def

lemmas op_defs = Write_def WriteByte_def writeByteNoSync_def Read_def Close_def ReadRegU8_def WriteRegU8_def
  ReadRegU16BE_def ReadRegU16LE_def ReadRegS16BE_def ReadRegS16LE_def
  WriteRegU16BE_def WriteRegU16LE_def WriteRegS16BE_def WriteRegS16LE_def

lemma issued_simp [simp]:
  "issued this (r, this\<lparr>rc := d, trace := trace this @ evs\<rparr>) = evs"
  "issued this (r, this\<lparr>trace := trace this @ evs, rc := d\<rparr>) = evs"
  "issued this (r, this\<lparr>trace := trace this @ evs\<rparr>) = evs"
  by (simp_all add: issued_def)

section \<open>The byte arithmetic of the 16-bit operations\<close>

lemma bit_ff: "bit (0xFF::'a::len word) n \<longleftrightarrow> n < 8 \<and> n < LENGTH('a)"
proof -
  have eq: "(0xFF::'a word) = mask 8"
    by (simp add: mask_eq_exp_minus_1)
  show ?thesis
    unfolding eq by (auto simp add: bit_mask_iff)
qed

lemma bit_ff00: "bit (0xFF00::'a::len word) n \<longleftrightarrow> 8 \<le> n \<and> n < 16 \<and> n < LENGTH('a)"
proof -
  have eq: "(0xFF00::'a word) = push_bit 8 (mask 8)"
    by (simp add: mask_eq_exp_minus_1 push_bit_eq_mult)
  show ?thesis
    unfolding eq by (auto simp add: bit_push_bit_iff bit_mask_iff)
qed

lemma bit_ff_int: "bit (0xFF::int) n \<longleftrightarrow> n < 8"
proof -
  have eq: "(0xFF::int) = mask 8"
    by (simp add: mask_eq_exp_minus_1)
  show ?thesis
    unfolding eq by (auto simp add: bit_mask_iff)
qed

lemma bit_ff00_int: "bit (0xFF00::int) n \<longleftrightarrow> 8 \<le> n \<and> n < 16"
proof -
  have eq: "(0xFF00::int) = push_bit 8 (mask 8)"
    by (simp add: mask_eq_exp_minus_1 push_bit_eq_mult)
  show ?thesis
    unfolding eq by (auto simp add: bit_push_bit_iff bit_mask_iff)
qed

lemmas bit_consts = bit_ff bit_ff00 bit_ff_int bit_ff00_int

text \<open>The big-endian combination of two received bytes has no carry: it is their join.\<close>

lemma go_be_word:
  "shl16 (uint16_of_byte b0) 8 + uint16_of_byte b1 = push_bit 8 (ucast b0) OR ucast b1"
  unfolding conv_defs
  by (rule disjunctive_add) (auto simp: bit_simps dest: bit_imp_le_length)

lemma go_be_word_signed:
  "shl16 (int16_of_byte b0) 8 + int16_of_byte b1 = push_bit 8 (ucast b0) OR ucast b1"
  unfolding conv_defs
  by (rule disjunctive_add) (auto simp: bit_simps dest: bit_imp_le_length)

lemma go_swap_u16_disj:
  "shl16 (w AND 0xFF) 8 + shr_u16 w 8 = shl16 (w AND 0xFF) 8 OR shr_u16 w 8"
  unfolding conv_defs
  by (rule disjunctive_add) (auto simp: bit_simps bit_consts dest: bit_imp_le_length)

text \<open>The unsigned exchange of bytes, on a word joined from two bytes.\<close>

lemma go_swap_u16:
  "shl16 ((push_bit 8 (ucast (b0 :: byte)) OR ucast (b1 :: byte)) AND 0xFF) 8
     + shr_u16 (push_bit 8 (ucast b0) OR ucast b1) 8
   = push_bit 8 (ucast b1) OR ucast b0"
  unfolding go_swap_u16_disj unfolding conv_defs
  by (rule bit_word_eqI) (auto simp: bit_simps bit_consts dest: bit_imp_le_length)

text \<open>Splitting a word into the two bytes of the big-endian writer and joining them again.\<close>

lemma go_split_u16:
  "shl16 (uint16_of_byte (byte_of_uint16 (shr_u16 (v AND 0xFF00) 8))) 8
     + uint16_of_byte (byte_of_uint16 (v AND 0xFF)) = v"
  unfolding go_be_word unfolding conv_defs
  by (rule bit_word_eqI) (auto simp: bit_simps bit_consts dest: bit_imp_le_length)

lemma go_bytes_16:
  "byte_of_uint16 (shr_u16 (uint16_of_int16 v AND 0xFF00) 8) = ucast (drop_bit 8 v)"
  "byte_of_int16 (v AND 0xFF) = ucast v"
  "byte_of_uint16 (shr_u16 (v AND 0xFF00) 8) = ucast (drop_bit 8 v)"
  "byte_of_uint16 (v AND 0xFF) = ucast v"
  unfolding conv_defs
  by (rule bit_word_eqI; auto simp: bit_simps bit_consts dest: bit_imp_le_length)+

section \<open>Reading 16-bit registers\<close>

lemma ReadRegU16BE_ok:
  assumes "sys_ioctl T (rc this) (file_Fd T (rc this)) I2C_SLAVE (unat addr) = (0, d1)"
    and "file_Write T d1 [reg] = ((n, None), d2)"
    and "sys_ioctl T d2 (file_Fd T d2) I2C_SLAVE (unat addr) = (0, d3)"
    and "file_Read T d3 2 = (([b0, b1], None), d4)"
  shows "fst (ReadRegU16BE T addr reg this) = (push_bit 8 (ucast b0) OR ucast b1, None)"
  using assms by (simp add: ReadRegU16BE_def io_defs go_be_word)

text \<open>
  Claim C5. When the reference phase succeeds (the address is set, \<open>[reg]\<close> is written)
  and the data phase succeeds with the transport delivering the two bytes \<open>[b0, b1]\<close>,
  \<open>b0\<close> first, \<open>ReadRegU16BE\<close> returns the unsigned word \<open>b0<<8 | b1\<close> and
  \<open>ReadRegU16LE\<close> returns \<open>b1<<8 | b0\<close>, both without error.
\<close>

theorem ReadRegU16_byte_order:
  assumes "sys_ioctl T (rc this) (file_Fd T (rc this)) I2C_SLAVE (unat addr) = (0, d1)"
    and "file_Write T d1 [reg] = ((n, None), d2)"
    and "sys_ioctl T d2 (file_Fd T d2) I2C_SLAVE (unat addr) = (0, d3)"
    and "file_Read T d3 2 = (([b0, b1], None), d4)"
  shows "fst (ReadRegU16BE T addr reg this) = (push_bit 8 (ucast b0) OR ucast b1, None) \<and>
         fst (ReadRegU16LE T addr reg this) = (push_bit 8 (ucast b1) OR ucast b0, None)"
  using ReadRegU16BE_ok [OF assms]
  by (auto simp add: ReadRegU16LE_def go_swap_u16 split: prod.splits)

theorem ReadRegU16_byte_order_witness:
  "fst (ReadRegU16BE scripted 0x40 0x0F
          (conn \<lparr>ioctl_rs = [], write_rs = [], read_rs = [([0x12, 0x34], None)]\<rparr>)) = (0x1234, None) \<and>
   fst (ReadRegU16LE scripted 0x40 0x0F
          (conn \<lparr>ioctl_rs = [], write_rs = [], read_rs = [([0x12, 0x34], None)]\<rparr>)) = (0x3412, None)"
  using ReadRegU16_byte_order [of scripted
      "conn \<lparr>ioctl_rs = [], write_rs = [], read_rs = [([0x12, 0x34], None)]\<rparr>" "0x40"
      "\<lparr>ioctl_rs = [], write_rs = [], read_rs = [([0x12, 0x34], None)]\<rparr>"
      "0x0F" 1 "\<lparr>ioctl_rs = [], write_rs = [], read_rs = [([0x12, 0x34], None)]\<rparr>"
      "\<lparr>ioctl_rs = [], write_rs = [], read_rs = [([0x12, 0x34], None)]\<rparr>"
      "0x12" "0x34" "\<lparr>ioctl_rs = [], write_rs = [], read_rs = []\<rparr>"]
  by (simp add: scripted_def conn_def)

text \<open>
  Claim C4, at the wire response \<open>[0x80, 0x01]\<close>. \<open>ReadRegS16LE\<close> exchanges the bytes
  of the signed big-endian word \<open>0x8001\<close> with \<^verbatim>\<open>(w&0xFF)<<8 + w>>8\<close>, where
  \<^verbatim>\<open>>>\<close> on \<^verbatim>\<open>int16\<close> copies the sign bit into the high byte: the sum is
  \<open>0x0100 + 0xFF80 = 0x0080\<close>, that is 128. The word \<open>b1<<8 | b0\<close> of the claim is
  \<open>0x0180\<close>, that is 384, which is what \<open>ReadRegU16LE\<close> returns for the same
  response.
\<close>

theorem ReadRegS16LE_sign_extends:
  "fst (ReadRegS16LE scripted 0x40 0x0F
          (conn \<lparr>ioctl_rs = [], write_rs = [], read_rs = [([0x80, 0x01], None)]\<rparr>)) = (0x0080, None) \<and>
   fst (ReadRegU16LE scripted 0x40 0x0F
          (conn \<lparr>ioctl_rs = [], write_rs = [], read_rs = [([0x80, 0x01], None)]\<rparr>)) = (0x0180, None) \<and>
   push_bit 8 (ucast (0x01 :: byte)) OR ucast (0x80 :: byte) = (0x0180 :: 16 word) \<and>
   sint (0x0080 :: int16) = 128 \<and> sint (0x0180 :: int16) = 384"
  by (simp add: ReadRegS16LE_def ReadRegS16BE_def ReadRegU16LE_def ReadRegU16BE_def io_defs
      conv_defs scripted_def conn_def)

section \<open>Writing 16-bit registers\<close>

text \<open>
  Claim C2, at the value \<open>0x0102\<close>. Both little-endian writers compute
  \<^verbatim>\<open>(value*0xFF00)>>8 + value<<8\<close>, which is \<open>0x02FE\<close>, and hand it to the big-endian
  writer: the bytes on the wire after \<open>reg\<close> are \<open>[0x02, 0xFE]\<close>. The big-endian
  writers called with the byte-swapped value \<open>0x0201\<close> send \<open>[0x02, 0x01]\<close>, the low
  byte and then the high byte of \<open>0x0102\<close>.
\<close>

theorem WriteRegLE_not_byte_swap:
  "issued (conn \<lparr>ioctl_rs = [], write_rs = [], read_rs = []\<rparr>)
     (WriteRegU16LE scripted 0x40 0x0F 0x0102 (conn \<lparr>ioctl_rs = [], write_rs = [], read_rs = []\<rparr>))
     = [EvLock, EvIoctl 3 I2C_SLAVE 0x40, EvWrite [0x0F, 0x02, 0xFE], EvUnlock] \<and>
   issued (conn \<lparr>ioctl_rs = [], write_rs = [], read_rs = []\<rparr>)
     (WriteRegS16LE scripted 0x40 0x0F 0x0102 (conn \<lparr>ioctl_rs = [], write_rs = [], read_rs = []\<rparr>))
     = [EvLock, EvIoctl 3 I2C_SLAVE 0x40, EvWrite [0x0F, 0x02, 0xFE], EvUnlock] \<and>
   issued (conn \<lparr>ioctl_rs = [], write_rs = [], read_rs = []\<rparr>)
     (WriteRegU16BE scripted 0x40 0x0F (push_bit 8 (0x0102 AND 0xFF) OR (drop_bit 8 0x0102 AND 0xFF))
        (conn \<lparr>ioctl_rs = [], write_rs = [], read_rs = []\<rparr>))
     = [EvLock, EvIoctl 3 I2C_SLAVE 0x40, EvWrite [0x0F, 0x02, 0x01], EvUnlock] \<and>
   issued (conn \<lparr>ioctl_rs = [], write_rs = [], read_rs = []\<rparr>)
     (WriteRegS16BE scripted 0x40 0x0F (push_bit 8 (0x0102 AND 0xFF) OR (drop_bit 8 0x0102 AND 0xFF))
        (conn \<lparr>ioctl_rs = [], write_rs = [], read_rs = []\<rparr>))
     = [EvLock, EvIoctl 3 I2C_SLAVE 0x40, EvWrite [0x0F, 0x02, 0x01], EvUnlock]"
  by (simp add: WriteRegU16LE_def WriteRegS16LE_def WriteRegU16BE_def WriteRegS16BE_def io_defs
      conv_defs scripted_def conn_def issued_def)

text \<open>
  Claim C8. On the fake device that stores the last two data bytes written,
  \<open>WriteRegU16BE\<close> of any value \<open>v\<close> succeeds, and \<open>ReadRegU16BE\<close> run on the state it
  leaves returns \<open>v\<close> without error, for every address, register and starting state.
\<close>

theorem WriteRegU16BE_ReadRegU16BE_roundtrip:
  "fst (WriteRegU16BE store_last2 addr reg v this) = None \<and>
   fst (ReadRegU16BE store_last2 addr reg (snd (WriteRegU16BE store_last2 addr reg v this))) = (v, None)"
  by (simp add: WriteRegU16BE_def ReadRegU16BE_def io_defs store_last2_def go_split_u16)

lemma WriteRegS16BE_issued:
  assumes "sys_ioctl T (rc this) (file_Fd T (rc this)) I2C_SLAVE (unat addr) = (0, d1)"
  shows "issued this (WriteRegS16BE T addr reg v this) =
        [EvLock, EvIoctl (file_Fd T (rc this)) I2C_SLAVE (unat addr),
         EvWrite [reg, ucast (drop_bit 8 v), ucast v], EvUnlock]"
proof -
  obtain n e d2 where "file_Write T d1 [reg, ucast (drop_bit 8 v), ucast v] = ((n, e), d2)"
    by (metis surj_pair)
  with assms show ?thesis
    by (cases e) (simp_all add: WriteRegS16BE_def go_bytes_16 uint16_of_int16_def io_defs)
qed

text \<open>
  Claim C9. For every signed value \<open>v\<close>, \<open>WriteRegS16BE\<close> does exactly what
  \<open>WriteRegU16BE\<close> does with \<open>u = uint16(v)\<close>, on every transport and connection:
  the same result, the same state, the same events. \<open>u\<close> is the unsigned reading of
  the two's-complement pattern of \<open>v\<close>, that is \<open>sint v mod 2^16\<close>, and when the address
  is set the one transfer is \<open>[reg, high byte of u, low byte of u]\<close>.
\<close>

theorem WriteRegS16BE_same_wire:
  "WriteRegS16BE T addr reg v this = WriteRegU16BE T addr reg (uint16_of_int16 v) this \<and>
   uint (uint16_of_int16 v) = sint v mod 2 ^ 16 \<and>
   (sys_ioctl T (rc this) (file_Fd T (rc this)) I2C_SLAVE (unat addr) = (0, d1) \<longrightarrow>
      issued this (WriteRegS16BE T addr reg v this) =
        [EvLock, EvIoctl (file_Fd T (rc this)) I2C_SLAVE (unat addr),
         EvWrite [reg, ucast (drop_bit 8 (uint16_of_int16 v)), ucast (uint16_of_int16 v)],
         EvUnlock])"
proof (intro conjI impI)
  show "WriteRegS16BE T addr reg v this = WriteRegU16BE T addr reg (uint16_of_int16 v) this"
    by (simp add: WriteRegS16BE_def WriteRegU16BE_def go_bytes_16) (simp add: uint16_of_int16_def)
  show "uint (uint16_of_int16 v) = sint v mod 2 ^ 16"
    unfolding uint16_of_int16_def scast_eq by (simp only: uint_word_of_int len_bit0 len_num1) simp
  assume "sys_ioctl T (rc this) (file_Fd T (rc this)) I2C_SLAVE (unat addr) = (0, d1)"
  then show "issued this (WriteRegS16BE T addr reg v this) =
        [EvLock, EvIoctl (file_Fd T (rc this)) I2C_SLAVE (unat addr),
         EvWrite [reg, ucast (drop_bit 8 (uint16_of_int16 v)), ucast (uint16_of_int16 v)],
         EvUnlock]"
    by (simp add: WriteRegS16BE_issued uint16_of_int16_def)
qed

theorem WriteRegS16BE_same_wire_witness:
  "WriteRegS16BE scripted 0x40 0x0F (- 2) (conn \<lparr>ioctl_rs = [], write_rs = [], read_rs = []\<rparr>)
     = WriteRegU16BE scripted 0x40 0x0F 0xFFFE (conn \<lparr>ioctl_rs = [], write_rs = [], read_rs = []\<rparr>) \<and>
   issued (conn \<lparr>ioctl_rs = [], write_rs = [], read_rs = []\<rparr>)
     (WriteRegS16BE scripted 0x40 0x0F (- 2) (conn \<lparr>ioctl_rs = [], write_rs = [], read_rs = []\<rparr>))
     = [EvLock, EvIoctl 3 I2C_SLAVE 0x40, EvWrite [0x0F, 0xFF, 0xFE], EvUnlock]"
  using WriteRegS16BE_same_wire [of scripted "0x40" "0x0F" "- 2"
      "conn \<lparr>ioctl_rs = [], write_rs = [], read_rs = []\<rparr>"
      "\<lparr>ioctl_rs = [], write_rs = [], read_rs = []\<rparr>"]
  by (simp add: WriteRegS16BE_def WriteRegU16BE_def io_defs conv_defs issued_def scripted_def conn_def)

section \<open>Raw reads\<close>

text \<open>
  Claim C3 fails on the code. \<open>Read\<close> returns what \<^verbatim>\<open>rc.Read\<close> returns and checks
  no length: when the transport fills one byte of a two-byte buffer and reports no
  error, \<open>Read\<close> returns the count 1 and no error, the second byte of the buffer as it
  was.
\<close>

theorem Read_short_read_succeeds:
  "fst (Read scripted 0x40 [0, 0]
          (conn \<lparr>ioctl_rs = [], write_rs = [], read_rs = [([0xAB], None)]\<rparr>)) = ([0xAB, 0], 1, None)"
  by (simp add: Read_def io_defs scripted_def conn_def)

text \<open>
  Claim C3 as amended. Once the address is set, \<open>Read\<close> returns the count and the
  error of the transport's read unchanged: when the transport fills \<open>length bs\<close> bytes,
  no more than the buffer holds, and reports \<open>e\<close> (an error or none), \<open>Read\<close> returns
  the buffer with those bytes at its start, the count \<open>length bs\<close> and \<open>e\<close>. A short
  read is an error exactly when the transport says so.
\<close>

theorem Read_returns_transport_result:
  assumes "sys_ioctl T (rc this) (file_Fd T (rc this)) I2C_SLAVE (unat addr) = (0, d1)"
    and "file_Read T d1 (length p) = ((bs, e), d2)"
    and "length bs \<le> length p"
  shows "fst (Read T addr p this) = (bs @ drop (length bs) p, int (length bs), e)"
  using assms by (simp add: Read_def io_defs)

theorem Read_returns_transport_result_witness:
  "fst (Read scripted 0x40 [0, 0]
          (conn \<lparr>ioctl_rs = [], write_rs = [], read_rs = [([0xAB], Some EOF)]\<rparr>)) = ([0xAB, 0], 1, Some EOF)"
  using Read_returns_transport_result [of scripted
      "conn \<lparr>ioctl_rs = [], write_rs = [], read_rs = [([0xAB], Some EOF)]\<rparr>" "0x40"
      "\<lparr>ioctl_rs = [], write_rs = [], read_rs = [([0xAB], Some EOF)]\<rparr>"
      "[0, 0]" "[0xAB]" "Some EOF" "\<lparr>ioctl_rs = [], write_rs = [], read_rs = []\<rparr>"]
  by (simp add: scripted_def conn_def)

section \<open>Failures of the address-set and of the reference phase\<close>

lemma perform_addr_fail:
  assumes "target c = Some addr"
    and "sys_ioctl T (rc this) (file_Fd T (rc this)) I2C_SLAVE (unat addr) = (e, d1)"
    and "e \<noteq> 0"
  shows "perform T c this =
    (Some (Errno e),
     this\<lparr>rc := d1,
          trace := trace this @ [EvLock, EvIoctl (file_Fd T (rc this)) I2C_SLAVE (unat addr), EvUnlock]\<rparr>)"
  using assms by (cases c) (simp_all add: op_defs io_defs)

lemma perform_ref_fail:
  assumes "reg_read c = Some (addr, reg)"
    and "sys_ioctl T (rc this) (file_Fd T (rc this)) I2C_SLAVE (unat addr) = (0, d1)"
    and "file_Write T d1 [reg] = ((n, Some err), d2)"
  shows "perform T c this =
    (Some err,
     this\<lparr>rc := d2,
          trace := trace this @ [EvLock, EvIoctl (file_Fd T (rc this)) I2C_SLAVE (unat addr),
                                EvWrite [reg], EvUnlock]\<rparr>)"
  using assms by (cases c) (simp_all add: op_defs io_defs)

section \<open>The events of a call\<close>

text \<open>
  Every call that is given an address issues \<open>EvLock\<close>, then the address-set, then
  events that are neither \<open>EvLock\<close> nor \<open>EvUnlock\<close>, then \<open>EvUnlock\<close>.
\<close>

lemma setAddress_trace:
  "trace (snd (setAddress T addr this)) =
     trace this @ [EvIoctl (file_Fd T (rc this)) I2C_SLAVE (unat addr)]"
  by (simp add: setAddress_def ioctl_def emit_def Let_def split: prod.splits)

lemma lock_free_simps [simp]:
  "lock_free []"
  "lock_free (ev # evs) \<longleftrightarrow> ev \<noteq> EvLock \<and> ev \<noteq> EvUnlock \<and> lock_free evs"
  "lock_free (evs @ evs') \<longleftrightarrow> lock_free evs \<and> lock_free evs'"
  by (auto simp add: lock_free_def)

lemma writeNoSync_trace:
  "\<exists>rest. trace (snd (writeNoSync T addr buf this)) =
     trace this @ EvIoctl (file_Fd T (rc this)) I2C_SLAVE (unat addr) # rest \<and> lock_free rest"
proof (cases "setAddress T addr this")
  case (Pair e this1)
  with setAddress_trace [of T addr this]
  have "trace this1 = trace this @ [EvIoctl (file_Fd T (rc this)) I2C_SLAVE (unat addr)]"
    by simp
  with Pair show ?thesis
    by (cases e) (simp_all add: writeNoSync_def rc_Write_def emit_def split: prod.splits)
qed

lemma readNoSync_trace:
  "\<exists>rest. trace (snd (readNoSync T addr p this)) =
     trace this @ EvIoctl (file_Fd T (rc this)) I2C_SLAVE (unat addr) # rest \<and> lock_free rest"
proof (cases "setAddress T addr this")
  case (Pair e this1)
  with setAddress_trace [of T addr this]
  have "trace this1 = trace this @ [EvIoctl (file_Fd T (rc this)) I2C_SLAVE (unat addr)]"
    by simp
  with Pair show ?thesis
    by (cases e) (simp_all add: readNoSync_def rc_Read_def emit_def Let_def split: prod.splits)
qed

lemma two_phase_trace:
  "\<exists>rest. trace (snd (case writeNoSync T addr [reg] this of
            ((_, Some err), this1) \<Rightarrow> ((z, Some err), this1)
          | ((_, None), this1) \<Rightarrow>
              (case readNoSync T addr p this1 of
                 ((_, _, Some err), this2) \<Rightarrow> ((z, Some err), this2)
               | ((buf, _, None), this2) \<Rightarrow> ((k buf, None), this2)))) =
     trace this @ EvIoctl (file_Fd T (rc this)) I2C_SLAVE (unat addr) # rest \<and> lock_free rest"
proof -
  obtain n e this1 where w: "writeNoSync T addr [reg] this = ((n, e), this1)"
    by (metis surj_pair)
  from writeNoSync_trace [of T addr "[reg]" this] w
  obtain rest1 where t1: "trace this1 =
      trace this @ EvIoctl (file_Fd T (rc this)) I2C_SLAVE (unat addr) # rest1" "lock_free rest1"
    by auto
  show ?thesis
  proof (cases e)
    case (Some err)
    with w t1 show ?thesis by simp
  next
    case None
    obtain buf m e2 this2 where r: "readNoSync T addr p this1 = ((buf, m, e2), this2)"
      by (metis surj_pair)
    from readNoSync_trace [of T addr p this1] r
    obtain rest2 where t2: "trace this2 =
        trace this1 @ EvIoctl (file_Fd T (rc this1)) I2C_SLAVE (unat addr) # rest2" "lock_free rest2"
      by auto
    from None w r t1 t2 show ?thesis
      by (cases e2) simp_all
  qed
qed

lemma locked_shape:
  assumes "\<exists>rest. trace (snd (body (mtx_Lock this))) = trace (mtx_Lock this) @ ev # rest \<and> lock_free rest"
  shows "\<exists>rest. issued this (locked body this) = EvLock # ev # rest @ [EvUnlock] \<and> lock_free rest"
proof -
  from assms obtain rest where
    "trace (snd (body (mtx_Lock this))) = trace (mtx_Lock this) @ ev # rest" "lock_free rest"
    by auto
  then show ?thesis
    by (cases "body (mtx_Lock this)")
      (simp add: locked_def issued_def mtx_Lock_def mtx_Unlock_def emit_def)
qed

lemma rc_mtx_Lock [simp]: "rc (mtx_Lock this) = rc this"
  by (simp add: mtx_Lock_def emit_def)

lemma issued_drop_value:
  "issued this (case r of ((v, err), this') \<Rightarrow> (err, this')) = issued this r"
  "issued this (case r' of ((p', n, err), this') \<Rightarrow> (err, this')) = issued this r'"
  "issued this (case r of ((_, Some err), this1) \<Rightarrow> ((z, Some err), this1)
                         | ((w, None), this1) \<Rightarrow> ((f w, None), this1)) = issued this r"
  by (simp_all add: issued_def split: prod.splits option.splits)

lemma write_phase_trace:
  "trace (snd (case writeNoSync T addr buf this of
            ((_, Some err), this1) \<Rightarrow> (Some err, this1)
          | ((_, None), this1) \<Rightarrow> (None, this1))) = trace (snd (writeNoSync T addr buf this))"
  by (simp split: prod.splits option.splits)

lemma locked_write_shape:
  "\<exists>rest. issued this (locked (writeNoSync T addr buf) this) =
     EvLock # EvIoctl (file_Fd T (rc this)) I2C_SLAVE (unat addr) # rest @ [EvUnlock] \<and> lock_free rest"
  using writeNoSync_trace [of T addr buf "mtx_Lock this"] by (intro locked_shape) simp

lemma locked_read_shape:
  "\<exists>rest. issued this (locked (readNoSync T addr p) this) =
     EvLock # EvIoctl (file_Fd T (rc this)) I2C_SLAVE (unat addr) # rest @ [EvUnlock] \<and> lock_free rest"
  using readNoSync_trace [of T addr p "mtx_Lock this"] by (intro locked_shape) simp

lemma locked_two_phase_shape:
  "\<exists>rest. issued this (locked (\<lambda>this.
          case writeNoSync T addr [reg] this of
            ((_, Some err), this1) \<Rightarrow> ((z, Some err), this1)
          | ((_, None), this1) \<Rightarrow>
              (case readNoSync T addr p this1 of
                 ((_, _, Some err), this2) \<Rightarrow> ((z, Some err), this2)
               | ((buf, _, None), this2) \<Rightarrow> ((k buf, None), this2))) this) =
     EvLock # EvIoctl (file_Fd T (rc this)) I2C_SLAVE (unat addr) # rest @ [EvUnlock] \<and> lock_free rest"
  using two_phase_trace [where this = "mtx_Lock this"] by (intro locked_shape) simp

lemma locked_write_phase_shape:
  "\<exists>rest. issued this (locked (\<lambda>this.
          case writeNoSync T addr buf this of
            ((_, Some err), this1) \<Rightarrow> (Some err, this1)
          | ((_, None), this1) \<Rightarrow> (None, this1)) this) =
     EvLock # EvIoctl (file_Fd T (rc this)) I2C_SLAVE (unat addr) # rest @ [EvUnlock] \<and> lock_free rest"
  using writeNoSync_trace [of T addr buf "mtx_Lock this"]
  by (intro locked_shape) (simp only: write_phase_trace rc_mtx_Lock)

lemma perform_starts:
  assumes "target c = Some addr"
  shows "\<exists>rest. issued this (perform T c this) =
     EvLock # EvIoctl (file_Fd T (rc this)) I2C_SLAVE (unat addr) # rest @ [EvUnlock] \<and> lock_free rest"
proof (cases c)
  case (Call_Write a buf)
  with assms have "a = addr" by simp
  then show ?thesis
    unfolding Call_Write perform.simps Write_def issued_drop_value
    by (simp only: locked_write_shape)
next
  case (Call_WriteByte a b)
  with assms have "a = addr" by simp
  then show ?thesis
    unfolding Call_WriteByte perform.simps WriteByte_def writeByteNoSync_def [abs_def] issued_drop_value
    by (simp only: locked_write_shape)
next
  case (Call_Read a p)
  with assms have "a = addr" by simp
  then show ?thesis
    unfolding Call_Read perform.simps Read_def issued_drop_value
    by (simp only: locked_read_shape)
next
  case Call_Close
  with assms show ?thesis by simp
next
  case (Call_ReadRegU8 a reg)
  with assms have "a = addr" by simp
  then show ?thesis
    unfolding Call_ReadRegU8 perform.simps ReadRegU8_def issued_drop_value
    by (simp only: locked_two_phase_shape)
next
  case (Call_WriteRegU8 a reg val)
  with assms have "a = addr" by simp
  then show ?thesis
    unfolding Call_WriteRegU8 perform.simps WriteRegU8_def
    by (simp only: locked_write_phase_shape)
next
  case (Call_ReadRegU16BE a reg)
  with assms have "a = addr" by simp
  then show ?thesis
    unfolding Call_ReadRegU16BE perform.simps ReadRegU16BE_def issued_drop_value
    by (simp only: locked_two_phase_shape)
next
  case (Call_ReadRegU16LE a reg)
  with assms have "a = addr" by simp
  then show ?thesis
    unfolding Call_ReadRegU16LE perform.simps ReadRegU16LE_def ReadRegU16BE_def issued_drop_value
    by (simp only: locked_two_phase_shape)
next
  case (Call_ReadRegS16BE a reg)
  with assms have "a = addr" by simp
  then show ?thesis
    unfolding Call_ReadRegS16BE perform.simps ReadRegS16BE_def issued_drop_value
    by (simp only: locked_two_phase_shape)
next
  case (Call_ReadRegS16LE a reg)
  with assms have "a = addr" by simp
  then show ?thesis
    unfolding Call_ReadRegS16LE perform.simps ReadRegS16LE_def ReadRegS16BE_def issued_drop_value
    by (simp only: locked_two_phase_shape)
next
  case (Call_WriteRegU16BE a reg val)
  with assms have "a = addr" by simp
  then show ?thesis
    unfolding Call_WriteRegU16BE perform.simps WriteRegU16BE_def
    by (simp only: locked_write_phase_shape)
next
  case (Call_WriteRegU16LE a reg val)
  with assms have "a = addr" by simp
  then show ?thesis
    unfolding Call_WriteRegU16LE perform.simps WriteRegU16LE_def Let_def WriteRegU16BE_def
    by (simp only: locked_write_phase_shape)
next
  case (Call_WriteRegS16BE a reg val)
  with assms have "a = addr" by simp
  then show ?thesis
    unfolding Call_WriteRegS16BE perform.simps WriteRegS16BE_def
    by (simp only: locked_write_phase_shape)
next
  case (Call_WriteRegS16LE a reg val)
  with assms have "a = addr" by simp
  then show ?thesis
    unfolding Call_WriteRegS16LE perform.simps WriteRegS16LE_def Let_def WriteRegS16BE_def
    by (simp only: locked_write_phase_shape)
qed

lemma Close_issued: "issued this (Close T this) = [EvLock, EvClose, EvUnlock]"
  by (simp add: Close_def io_defs issued_def split: prod.splits)

lemma perform_shape:
  "\<exists>body. issued this (perform T c this) = EvLock # body @ [EvUnlock] \<and> lock_free body"
proof (cases "target c")
  case None
  then have "c = Call_Close" by (cases c) simp_all
  then have "issued this (perform T c this) = EvLock # [EvClose] @ [EvUnlock] \<and> lock_free [EvClose]"
    by (simp add: Close_issued)
  then show ?thesis by blast
next
  case (Some addr)
  from perform_starts [OF this, of this T] obtain rest where
    "issued this (perform T c this) =
       EvLock # (EvIoctl (file_Fd T (rc this)) I2C_SLAVE (unat addr) # rest) @ [EvUnlock]"
    "lock_free (EvIoctl (file_Fd T (rc this)) I2C_SLAVE (unat addr) # rest)"
    by auto
  then show ?thesis by blast
qed

text \<open>
  Claim C6. For every call \<open>c\<close> that is given an address (\<open>Write\<close>, \<open>WriteByte\<close>,
  \<open>Read\<close> and the twelve register operations): when the address-set request fails
  with \<open>errno = e\<close>, the call returns that error, \<open>Errno e\<close>, and issues nothing but the
  lock, the request and the unlock, so no transfer is attempted, and the device is
  left as the request left it. For every register read \<open>c'\<close>: when the address is set
  and the write of the reference byte fails with \<open>err\<close>, the call returns \<open>err\<close> and
  stops after that write, with no second address-set and no read.
\<close>

theorem address_failure_aborts:
  "(target c = Some addr \<and>
    sys_ioctl T (rc this) (file_Fd T (rc this)) I2C_SLAVE (unat addr) = (e, d1) \<and> e \<noteq> 0 \<longrightarrow>
      fst (perform T c this) = Some (Errno e) \<and>
      issued this (perform T c this) =
        [EvLock, EvIoctl (file_Fd T (rc this)) I2C_SLAVE (unat addr), EvUnlock] \<and>
      rc (snd (perform T c this)) = d1) \<and>
   (reg_read c' = Some (addr', reg) \<and>
    sys_ioctl T' (rc this') (file_Fd T' (rc this')) I2C_SLAVE (unat addr') = (0, d1') \<and>
    file_Write T' d1' [reg] = ((n, Some err), d2') \<longrightarrow>
      fst (perform T' c' this') = Some err \<and>
      issued this' (perform T' c' this') =
        [EvLock, EvIoctl (file_Fd T' (rc this')) I2C_SLAVE (unat addr'), EvWrite [reg], EvUnlock] \<and>
      rc (snd (perform T' c' this')) = d2')"
proof (intro conjI impI)
  assume a: "target c = Some addr \<and>
    sys_ioctl T (rc this) (file_Fd T (rc this)) I2C_SLAVE (unat addr) = (e, d1) \<and> e \<noteq> 0"
  then have p: "perform T c this =
    (Some (Errno e),
     this\<lparr>rc := d1,
          trace := trace this @ [EvLock, EvIoctl (file_Fd T (rc this)) I2C_SLAVE (unat addr), EvUnlock]\<rparr>)"
    by (elim conjE) (rule perform_addr_fail; assumption)
  show "fst (perform T c this) = Some (Errno e)"
    and "issued this (perform T c this) =
        [EvLock, EvIoctl (file_Fd T (rc this)) I2C_SLAVE (unat addr), EvUnlock]"
    and "rc (snd (perform T c this)) = d1"
    by (simp_all add: p)
next
  assume a: "reg_read c' = Some (addr', reg) \<and>
    sys_ioctl T' (rc this') (file_Fd T' (rc this')) I2C_SLAVE (unat addr') = (0, d1') \<and>
    file_Write T' d1' [reg] = ((n, Some err), d2')"
  then have p: "perform T' c' this' =
    (Some err,
     this'\<lparr>rc := d2',
          trace := trace this' @ [EvLock, EvIoctl (file_Fd T' (rc this')) I2C_SLAVE (unat addr'),
                                EvWrite [reg], EvUnlock]\<rparr>)"
    by (elim conjE) (rule perform_ref_fail; assumption)
  show "fst (perform T' c' this') = Some err"
    and "issued this' (perform T' c' this') =
        [EvLock, EvIoctl (file_Fd T' (rc this')) I2C_SLAVE (unat addr'), EvWrite [reg], EvUnlock]"
    and "rc (snd (perform T' c' this')) = d2'"
    by (simp_all add: p)
qed

theorem address_failure_aborts_witness:
  "perform scripted (Call_Write 0x40 [0x01, 0x02]) (conn \<lparr>ioctl_rs = [9], write_rs = [], read_rs = []\<rparr>)
     = (Some (Errno 9),
        \<lparr>rc = \<lparr>ioctl_rs = [], write_rs = [], read_rs = []\<rparr>,
         trace = [EvLock, EvIoctl 3 I2C_SLAVE 0x40, EvUnlock]\<rparr>) \<and>
   perform scripted (Call_ReadRegU16BE 0x40 0x0F)
       (conn \<lparr>ioctl_rs = [], write_rs = [(0, Some (PathError ''write'' 5))], read_rs = []\<rparr>)
     = (Some (PathError ''write'' 5),
        \<lparr>rc = \<lparr>ioctl_rs = [], write_rs = [], read_rs = []\<rparr>,
         trace = [EvLock, EvIoctl 3 I2C_SLAVE 0x40, EvWrite [0x0F], EvUnlock]\<rparr>)"
  using address_failure_aborts [of "Call_Write 0x40 [0x01, 0x02]" "0x40" scripted
      "conn \<lparr>ioctl_rs = [9], write_rs = [], read_rs = []\<rparr>" 9
      "\<lparr>ioctl_rs = [], write_rs = [], read_rs = []\<rparr>"
      "Call_ReadRegU16BE 0x40 0x0F" "0x40" "0x0F" scripted
      "conn \<lparr>ioctl_rs = [], write_rs = [(0, Some (PathError ''write'' 5))], read_rs = []\<rparr>"
      "\<lparr>ioctl_rs = [], write_rs = [(0, Some (PathError ''write'' 5))], read_rs = []\<rparr>"
      0 "PathError ''write'' 5" "\<lparr>ioctl_rs = [], write_rs = [], read_rs = []\<rparr>"]
  by (simp add: scripted_def conn_def issued_def prod_eq_iff)

section \<open>After Close\<close>

text \<open>
  Claim C7 fails on the code. The connection keeps no record of having been closed,
  and \<open>setAddress\<close> issues its \<^verbatim>\<open>ioctl\<close> with whatever \<^verbatim>\<open>rc.Fd()\<close> answers. On
  a transport that behaves as a closed Unix file does, \<open>Close\<close> succeeds and a
  \<open>Write\<close> after it still issues the device-control request, with the invalid
  descriptor \<open>2^64 - 1\<close> (not the released descriptor 3); the call fails, with no
  transfer, because the system rejects that request.
\<close>

theorem Write_after_Close_issues_ioctl:
  "fst (Close closable (conn False)) = None \<and>
   issued (snd (Close closable (conn False)))
     (Write closable 0x40 [0x01] (snd (Close closable (conn False))))
     = [EvLock, EvIoctl (2 ^ 64 - 1) I2C_SLAVE 0x40, EvUnlock] \<and>
   fst (Write closable 0x40 [0x01] (snd (Close closable (conn False)))) = (0, Some (Errno 9))"
  by (simp add: Close_def Write_def io_defs closable_def conn_def issued_def)

lemma closable_Close_closes:
  assumes "Close closable this0 = (None, this)"
  shows "rc this"
proof (cases "rc this0")
  case True
  with assms show ?thesis
    by (simp add: Close_def io_defs closable_def)
next
  case False
  with assms show ?thesis
    by (auto simp add: Close_def io_defs closable_def)
qed

lemma closable_closed_ioctl:
  "sys_ioctl closable True (file_Fd closable True) I2C_SLAVE (unat addr) = (9, True)"
  by (simp add: closable_def)

lemma closable_closed_call:
  assumes "rc this"
    and "target c = Some addr"
  shows "perform closable c this =
    (Some (Errno 9),
     this\<lparr>rc := True,
          trace := trace this @ [EvLock, EvIoctl (2 ^ 64 - 1) I2C_SLAVE (unat addr), EvUnlock]\<rparr>)"
proof -
  from assms(1) have "sys_ioctl closable (rc this) (file_Fd closable (rc this)) I2C_SLAVE (unat addr)
      = (9, True)"
    by (simp add: closable_closed_ioctl)
  from perform_addr_fail [OF assms(2) this] assms(1) show ?thesis
    by (simp add: closable_def)
qed

lemma closable_stays_closed:
  assumes "rc this"
  shows "rc (snd (perform closable c this))"
proof (cases "target c")
  case None
  then have "c = Call_Close" by (cases c) simp_all
  with assms show ?thesis
    by (simp add: Close_def io_defs closable_def)
next
  case (Some addr)
  from closable_closed_call [OF assms this] show ?thesis
    by simp
qed

lemma closable_stays_closed_all:
  "rc this \<Longrightarrow> rc (perform_all closable cs this)"
  by (induction cs arbitrary: this) (simp_all add: closable_stays_closed)

text \<open>
  Claim C7 as amended. On a transport that behaves as a Unix file does around
  \<^verbatim>\<open>Close\<close>, after \<open>Close\<close> has succeeded every later call that is given an address
  (\<open>Write\<close>, \<open>Read\<close>, \<open>WriteByte\<close> and the twelve register operations), whatever calls
  \<open>cs\<close> were performed on the connection in between, fails, always with \<open>EBADF\<close>, and
  attempts no transfer: it takes the lock, issues the address-set request with the
  invalid descriptor that the closed handle reports, and unlocks. The request is
  issued, and it is that request's rejection that fails the call; the connection stays
  closed.
\<close>

theorem after_Close_every_call_fails:
  assumes "Close closable this0 = (None, this)"
    and "target c = Some addr"
  shows "fst (perform closable c (perform_all closable cs this)) = Some (Errno 9) \<and>
         issued (perform_all closable cs this) (perform closable c (perform_all closable cs this)) =
           [EvLock, EvIoctl (2 ^ 64 - 1) I2C_SLAVE (unat addr), EvUnlock] \<and>
         rc (snd (perform closable c (perform_all closable cs this)))"
proof -
  from closable_Close_closes [OF assms(1)] have "rc (perform_all closable cs this)"
    by (rule closable_stays_closed_all)
  from closable_closed_call [OF this assms(2)] show ?thesis
    by simp
qed

theorem after_Close_every_call_fails_witness:
  "Close closable (conn False) = (None, \<lparr>rc = True, trace = [EvLock, EvClose, EvUnlock]\<rparr>) \<and>
   fst (perform closable (Call_ReadRegU8 0x40 0x0F)
          (perform_all closable [Call_Write 0x40 [0x01], Call_Close]
             \<lparr>rc = True, trace = [EvLock, EvClose, EvUnlock]\<rparr>)) = Some (Errno 9) \<and>
   issued (perform_all closable [Call_Write 0x40 [0x01], Call_Close]
             \<lparr>rc = True, trace = [EvLock, EvClose, EvUnlock]\<rparr>)
     (perform closable (Call_ReadRegU8 0x40 0x0F)
          (perform_all closable [Call_Write 0x40 [0x01], Call_Close]
             \<lparr>rc = True, trace = [EvLock, EvClose, EvUnlock]\<rparr>))
     = [EvLock, EvIoctl (2 ^ 64 - 1) I2C_SLAVE 0x40, EvUnlock]"
proof -
  have h1: "Close closable (conn False) = (None, \<lparr>rc = True, trace = [EvLock, EvClose, EvUnlock]\<rparr>)"
    by (simp add: Close_def io_defs closable_def conn_def)
  have h2: "target (Call_ReadRegU8 0x40 0x0F) = Some 0x40"
    by simp
  from after_Close_every_call_fails [OF h1 h2, of "[Call_Write 0x40 [0x01], Call_Close]"] h1
  show ?thesis
    by simp
qed

section \<open>The two phases of a register read\<close>

text \<open>
  Claim C10. In a call of \<open>ReadRegU8\<close>, \<open>ReadRegU16BE\<close> or \<open>ReadRegS16BE\<close> whose
  reference phase succeeds, the address-set request is issued twice with the same
  address: immediately before the write of \<open>[reg]\<close> and again immediately after it,
  before the data read of 1 or 2 bytes, which follows when the second request succeeds
  (\<open>e = 0\<close>).
\<close>

theorem register_read_sets_address_per_phase:
  assumes "sys_ioctl T (rc this) (file_Fd T (rc this)) I2C_SLAVE (unat addr) = (0, d1)"
    and "file_Write T d1 [reg] = ((n, None), d2)"
    and "sys_ioctl T d2 (file_Fd T d2) I2C_SLAVE (unat addr) = (e, d3)"
  shows "issued this (ReadRegU8 T addr reg this) =
           [EvLock, EvIoctl (file_Fd T (rc this)) I2C_SLAVE (unat addr), EvWrite [reg],
            EvIoctl (file_Fd T d2) I2C_SLAVE (unat addr)] @ (if e = 0 then [EvRead 1] else []) @ [EvUnlock] \<and>
         issued this (ReadRegU16BE T addr reg this) =
           [EvLock, EvIoctl (file_Fd T (rc this)) I2C_SLAVE (unat addr), EvWrite [reg],
            EvIoctl (file_Fd T d2) I2C_SLAVE (unat addr)] @ (if e = 0 then [EvRead 2] else []) @ [EvUnlock] \<and>
         issued this (ReadRegS16BE T addr reg this) =
           [EvLock, EvIoctl (file_Fd T (rc this)) I2C_SLAVE (unat addr), EvWrite [reg],
            EvIoctl (file_Fd T d2) I2C_SLAVE (unat addr)] @ (if e = 0 then [EvRead 2] else []) @ [EvUnlock]"
proof (cases "e = 0")
  case True
  obtain bs1 e1 d4 where r1: "file_Read T d3 1 = ((bs1, e1), d4)"
    by (metis surj_pair)
  obtain bs2 e2 d5 where r2: "file_Read T d3 2 = ((bs2, e2), d5)"
    by (metis surj_pair)
  from assms True r1 r2 show ?thesis
    by (cases e1; cases e2) (simp_all add: ReadRegU8_def ReadRegU16BE_def ReadRegS16BE_def io_defs)
next
  case False
  with assms show ?thesis
    by (simp add: ReadRegU8_def ReadRegU16BE_def ReadRegS16BE_def io_defs)
qed

theorem register_read_sets_address_per_phase_witness:
  "issued (conn \<lparr>ioctl_rs = [], write_rs = [], read_rs = []\<rparr>)
      (ReadRegU8 scripted 0x40 0x0F (conn \<lparr>ioctl_rs = [], write_rs = [], read_rs = []\<rparr>)) =
     [EvLock, EvIoctl 3 I2C_SLAVE 0x40, EvWrite [0x0F], EvIoctl 3 I2C_SLAVE 0x40, EvRead 1, EvUnlock] \<and>
   issued (conn \<lparr>ioctl_rs = [], write_rs = [], read_rs = []\<rparr>)
      (ReadRegU16BE scripted 0x40 0x0F (conn \<lparr>ioctl_rs = [], write_rs = [], read_rs = []\<rparr>)) =
     [EvLock, EvIoctl 3 I2C_SLAVE 0x40, EvWrite [0x0F], EvIoctl 3 I2C_SLAVE 0x40, EvRead 2, EvUnlock] \<and>
   issued (conn \<lparr>ioctl_rs = [], write_rs = [], read_rs = []\<rparr>)
      (ReadRegS16BE scripted 0x40 0x0F (conn \<lparr>ioctl_rs = [], write_rs = [], read_rs = []\<rparr>)) =
     [EvLock, EvIoctl 3 I2C_SLAVE 0x40, EvWrite [0x0F], EvIoctl 3 I2C_SLAVE 0x40, EvRead 2, EvUnlock]"
  using register_read_sets_address_per_phase [of scripted
      "conn \<lparr>ioctl_rs = [], write_rs = [], read_rs = []\<rparr>" "0x40"
      "\<lparr>ioctl_rs = [], write_rs = [], read_rs = []\<rparr>" "0x0F" 1
      "\<lparr>ioctl_rs = [], write_rs = [], read_rs = []\<rparr>" 0
      "\<lparr>ioctl_rs = [], write_rs = [], read_rs = []\<rparr>"]
  by (simp add: scripted_def conn_def)

section \<open>Two threads on one connection\<close>

lemma mutex_ok_other:
  "ev \<noteq> EvLock \<Longrightarrow> ev \<noteq> EvUnlock \<Longrightarrow> mutex_ok held ((t, ev) # run) = mutex_ok held run"
  by (cases ev) simp_all

lemma shuffles_first:
  assumes "run \<in> shuffles (x # xs) (y # ys)"
  shows "(\<exists>run'. run = x # run' \<and> run' \<in> shuffles xs (y # ys)) \<or>
         (\<exists>run'. run = y # run' \<and> run' \<in> shuffles (x # xs) ys)"
  using assms by (cases run) (auto simp add: Cons_in_shuffles_iff)

lemma held_section_runs_first:
  assumes "run \<in> shuffles (by_thread a (body @ [EvUnlock])) (by_thread b (EvLock # evs))"
    and "lock_free body"
    and "mutex_ok True run"
  shows "run = by_thread a (body @ [EvUnlock]) @ by_thread b (EvLock # evs)"
  using assms
proof (induction body arbitrary: run)
  case Nil
  from Nil.prems(1)
  have "run \<in> shuffles ((a, EvUnlock) # []) ((b, EvLock) # by_thread b evs)"
    by (simp add: by_thread_def)
  from shuffles_first [OF this] Nil.prems(3) show ?case
    by (auto simp add: by_thread_def)
next
  case (Cons ev body)
  from Cons.prems(2) have ev: "ev \<noteq> EvLock" "ev \<noteq> EvUnlock" and lf: "lock_free body"
    by simp_all
  from Cons.prems(1)
  have "run \<in> shuffles ((a, ev) # by_thread a (body @ [EvUnlock])) ((b, EvLock) # by_thread b evs)"
    by (simp add: by_thread_def)
  from shuffles_first [OF this] Cons.prems(3)
  obtain run' where run: "run = (a, ev) # run'"
    and run': "run' \<in> shuffles (by_thread a (body @ [EvUnlock])) (by_thread b (EvLock # evs))"
    by (auto simp add: by_thread_def)
  from Cons.prems(3) run ev have "mutex_ok True run'"
    by (simp add: mutex_ok_other)
  from Cons.IH [OF run' lf this] run show ?case
    by (simp add: by_thread_def)
qed

lemma locked_sections_serial:
  assumes "run \<in> shuffles (by_thread a (EvLock # xs @ [EvUnlock])) (by_thread b (EvLock # ys @ [EvUnlock]))"
    and "lock_free xs" and "lock_free ys"
    and "mutex_ok False run"
  shows "run = by_thread a (EvLock # xs @ [EvUnlock]) @ by_thread b (EvLock # ys @ [EvUnlock]) \<or>
         run = by_thread b (EvLock # ys @ [EvUnlock]) @ by_thread a (EvLock # xs @ [EvUnlock])"
proof -
  from assms(1)
  have "run \<in> shuffles ((a, EvLock) # by_thread a (xs @ [EvUnlock]))
                        ((b, EvLock) # by_thread b (ys @ [EvUnlock]))"
    by (simp add: by_thread_def)
  from shuffles_first [OF this] show ?thesis
  proof (elim disjE exE conjE)
    fix run'
    assume run: "run = (a, EvLock) # run'"
      and "run' \<in> shuffles (by_thread a (xs @ [EvUnlock])) ((b, EvLock) # by_thread b (ys @ [EvUnlock]))"
    then have run': "run' \<in> shuffles (by_thread a (xs @ [EvUnlock])) (by_thread b (EvLock # ys @ [EvUnlock]))"
      by (simp add: by_thread_def)
    from assms(4) run have "mutex_ok True run'" by simp
    from held_section_runs_first [OF run' assms(2) this] run show ?thesis
      by (simp add: by_thread_def)
  next
    fix run'
    assume run: "run = (b, EvLock) # run'"
      and "run' \<in> shuffles ((a, EvLock) # by_thread a (xs @ [EvUnlock])) (by_thread b (ys @ [EvUnlock]))"
    then have run': "run' \<in> shuffles (by_thread b (ys @ [EvUnlock])) (by_thread a (EvLock # xs @ [EvUnlock]))"
      by (simp add: by_thread_def shuffles_commutes)
    from assms(4) run have "mutex_ok True run'" by simp
    from held_section_runs_first [OF run' assms(3) this] run show ?thesis
      by (simp add: by_thread_def)
  qed
qed

lemma append_in_shuffles: "xs @ ys \<in> shuffles xs ys"
  by (induction xs) (simp_all add: Cons_in_shuffles_leftI)

text \<open>
  Claim C1. Every public call, and so each of \<open>ReadRegU8\<close>, \<open>WriteRegU8\<close>,
  \<open>ReadRegU16BE\<close>, \<open>ReadRegS16BE\<close>, \<open>WriteRegU16BE\<close> and \<open>WriteRegS16BE\<close>, takes the
  mutex once, as its first event, and releases it once, as its last: the address-sets
  and transfers of both phases lie between. Thread \<open>a\<close> performs \<open>cA\<close> and thread
  \<open>b\<close> performs \<open>cB\<close>; what each is answered by the shared device depends on the
  run, so each call is taken on an arbitrary transport and state. Then every
  interleaving of their events that the mutex allows is one call's events followed by
  the other's: no event of one call lies between two events of the other.
\<close>

theorem locked_calls_do_not_interleave:
  assumes "run \<in> shuffles (by_thread a (issued thisA (perform TA cA thisA)))
                          (by_thread b (issued thisB (perform TB cB thisB)))"
    and "mutex_ok False run"
  shows "(\<exists>body. issued thisA (perform TA cA thisA) = EvLock # body @ [EvUnlock] \<and> lock_free body) \<and>
         (run = by_thread a (issued thisA (perform TA cA thisA)) @
                by_thread b (issued thisB (perform TB cB thisB)) \<or>
          run = by_thread b (issued thisB (perform TB cB thisB)) @
                by_thread a (issued thisA (perform TA cA thisA)))"
proof -
  from perform_shape [of thisA TA cA] obtain xs where
    A: "issued thisA (perform TA cA thisA) = EvLock # xs @ [EvUnlock]" "lock_free xs"
    by auto
  from perform_shape [of thisB TB cB] obtain ys where
    B: "issued thisB (perform TB cB thisB) = EvLock # ys @ [EvUnlock]" "lock_free ys"
    by auto
  from assms(1) have "run \<in> shuffles (by_thread a (EvLock # xs @ [EvUnlock]))
                                     (by_thread b (EvLock # ys @ [EvUnlock]))"
    by (simp only: A B)
  from locked_sections_serial [OF this A(2) B(2) assms(2)] A B show ?thesis
    by auto
qed

theorem locked_calls_do_not_interleave_witness:
  "mutex_ok False
     [(1 :: nat, EvLock), (1, EvIoctl 3 I2C_SLAVE 0x40), (1, EvWrite [0x0F]),
      (1, EvIoctl 3 I2C_SLAVE 0x40), (1, EvRead 1), (1, EvUnlock),
      (2, EvLock), (2, EvIoctl 3 I2C_SLAVE 0x40), (2, EvWrite [0x10, 0xAB]), (2, EvUnlock)] \<and>
   [(1 :: nat, EvLock), (1, EvIoctl 3 I2C_SLAVE 0x40), (1, EvWrite [0x0F]),
    (1, EvIoctl 3 I2C_SLAVE 0x40), (1, EvRead 1), (1, EvUnlock),
    (2, EvLock), (2, EvIoctl 3 I2C_SLAVE 0x40), (2, EvWrite [0x10, 0xAB]), (2, EvUnlock)] =
   by_thread 1 (issued (conn \<lparr>ioctl_rs = [], write_rs = [], read_rs = []\<rparr>)
      (perform scripted (Call_ReadRegU8 0x40 0x0F) (conn \<lparr>ioctl_rs = [], write_rs = [], read_rs = []\<rparr>))) @
   by_thread 2 (issued (conn \<lparr>ioctl_rs = [], write_rs = [], read_rs = []\<rparr>)
      (perform scripted (Call_WriteRegU8 0x40 0x10 0xAB) (conn \<lparr>ioctl_rs = [], write_rs = [], read_rs = []\<rparr>)))"
proof -
  let ?c = "conn \<lparr>ioctl_rs = [], write_rs = [], read_rs = []\<rparr>"
  let ?run = "[(1 :: nat, EvLock), (1, EvIoctl 3 I2C_SLAVE 0x40), (1, EvWrite [0x0F]),
      (1, EvIoctl 3 I2C_SLAVE 0x40), (1, EvRead 1), (1, EvUnlock),
      (2, EvLock), (2, EvIoctl 3 I2C_SLAVE 0x40), (2, EvWrite [0x10, 0xAB]), (2, EvUnlock)]"
  have A: "issued ?c (perform scripted (Call_ReadRegU8 0x40 0x0F) ?c) =
      [EvLock, EvIoctl 3 I2C_SLAVE 0x40, EvWrite [0x0F], EvIoctl 3 I2C_SLAVE 0x40, EvRead 1, EvUnlock]"
    by (simp add: ReadRegU8_def io_defs scripted_def conn_def issued_def)
  have B: "issued ?c (perform scripted (Call_WriteRegU8 0x40 0x10 0xAB) ?c) =
      [EvLock, EvIoctl 3 I2C_SLAVE 0x40, EvWrite [0x10, 0xAB], EvUnlock]"
    by (simp add: WriteRegU8_def io_defs scripted_def conn_def issued_def)
  have eq: "?run =
      by_thread 1 [EvLock, EvIoctl 3 I2C_SLAVE 0x40, EvWrite [0x0F], EvIoctl 3 I2C_SLAVE 0x40, EvRead 1, EvUnlock] @
      by_thread 2 [EvLock, EvIoctl 3 I2C_SLAVE 0x40, EvWrite [0x10, 0xAB], EvUnlock]"
    by (simp add: by_thread_def)
  have h1: "?run \<in> shuffles (by_thread 1 (issued ?c (perform scripted (Call_ReadRegU8 0x40 0x0F) ?c)))
                             (by_thread 2 (issued ?c (perform scripted (Call_WriteRegU8 0x40 0x10 0xAB) ?c)))"
    unfolding A B eq by (rule append_in_shuffles)
  have h2: "mutex_ok False ?run"
    by simp
  have h3: "?run = by_thread 1 (issued ?c (perform scripted (Call_ReadRegU8 0x40 0x0F) ?c)) @
                   by_thread 2 (issued ?c (perform scripted (Call_WriteRegU8 0x40 0x10 0xAB) ?c))"
    unfolding A B by (rule eq)
  from locked_calls_do_not_interleave [OF h1 h2] h2 h3 show ?thesis
    by blast
qed

end
